theory Spec2Isabelle
  imports Complex_Main "HOL-Library.AList"
begin

section \<open>Data model of the playback client (frontend/src/App.jsx)\<close>

text \<open>
  JavaScript numbers are modelled as mathematical reals: rounding, infinities and NaN of
  IEEE doubles are left out. Objects of the JSON interface become records; a value that
  may be \<^verbatim>\<open>null\<close> or \<^verbatim>\<open>undefined\<close> becomes an \<open>option\<close>.
\<close>

text \<open>A point \<^verbatim>\<open>{x, y, z}\<close>: a waypoint, a sampled position, a conflict location.\<close>

record vec3 =
  vx :: real
  vy :: real
  vz :: real

text \<open>A projected screen point \<^verbatim>\<open>{x, y}\<close>.\<close>

record point2 =
  sx :: real
  sy :: real

record time_window =
  tw_start :: real
  tw_end :: real

record mission =
  mid :: string
  waypoints :: "vec3 list"
  timeWindow :: time_window

record sample =
  time :: real
  position :: vec3

type_synonym trajectory = "sample list"

record conflict =
  conflict_time :: real
  location :: vec3
  otherDroneId :: string
  distance :: real

datatype verdict = CLEAR | CONFLICT

record verification_result =
  status :: verdict
  conflicts :: "conflict list"
  analysisTime :: real
  mlUsed :: bool

record scenario =
  primary :: mission
  others :: "mission list"

section \<open>Trajectory sampler: \<^verbatim>\<open>getPositionAtTime\<close>\<close>

text \<open>
  The \<^verbatim>\<open>for (const sample of trajectory)\<close> loop, with its two loop variables
  \<^verbatim>\<open>closest\<close> and \<^verbatim>\<open>minDiff\<close> as the accumulator.
\<close>

fun closest_loop :: "sample list \<Rightarrow> real \<Rightarrow> sample \<times> real \<Rightarrow> sample \<times> real" where
  "closest_loop [] t (closest, minDiff) = (closest, minDiff)"
| "closest_loop (s # rest) t (closest, minDiff) =
     (let diff = \<bar>time s - t\<bar> in
      if diff < minDiff then closest_loop rest t (s, diff)
      else closest_loop rest t (closest, minDiff))"

text \<open>
  \<^verbatim>\<open>if (!trajectory || trajectory.length === 0) return null\<close>: an absent trajectory is
  \<open>None\<close>, and so is the \<^verbatim>\<open>null\<close> result. Otherwise the loop starts from
  \<^verbatim>\<open>trajectory[0]\<close> and runs over every sample, the first one included.
\<close>

definition getPositionAtTime :: "trajectory option \<Rightarrow> real \<Rightarrow> vec3 option" where
  "getPositionAtTime trajectory t =
     (case trajectory of
        None \<Rightarrow> None
      | Some [] \<Rightarrow> None
      | Some (s0 # rest) \<Rightarrow>
          Some (position (fst (closest_loop (s0 # rest) t (s0, \<bar>time s0 - t\<bar>)))))"

section \<open>Projection: \<^verbatim>\<open>project\<close> and its constants\<close>

definition scale :: real where
  "scale = 2.5"

definition offsetX :: real where
  "offsetX = 200"

definition offsetY :: real where
  "offsetY = 300"

definition project :: "real \<Rightarrow> real \<Rightarrow> real \<Rightarrow> point2" where
  "project x y z =
     \<lparr>sx = offsetX + (x - y) * cos (pi / 6) * scale,
      sy = offsetY - z * scale * 0.8 + (x + y) * sin (pi / 6) * scale\<rparr>"

text \<open>Componentwise difference of two screen points, used to state affinity.\<close>

definition point2_diff :: "point2 \<Rightarrow> point2 \<Rightarrow> point2" where
  "point2_diff p q = \<lparr>sx = sx p - sx q, sy = sy p - sy q\<rparr>"

section \<open>Application state\<close>

text \<open>
  The \<^verbatim>\<open>useState\<close> cells of \<^verbatim>\<open>App\<close>. A JSON object with string keys is an
  association list in insertion order: the scenario catalogue is read with \<open>map_of\<close>,
  and the trajectory object is written with \<open>AList.update\<close>, which overwrites the value
  of a key it has and appends a new key otherwise, as property assignment does. A value
  of the trajectory object is \<open>None\<close> when the response carried no
  \<^verbatim>\<open>trajectory\<close> field (the stored value is \<^verbatim>\<open>undefined\<close>).
\<close>

record app_state =
  scenarios :: "(string \<times> scenario) list"
  selectedScenario :: string
  primaryMission :: "mission option"
  otherMissions :: "mission list"
  verificationResult :: "verification_result option"
  isLoading :: bool
  useML :: bool
  mlAvailable :: bool
  currentTime :: real
  isPlaying :: bool
  trajectories :: "(string \<times> trajectory option) list"
  view3D :: bool

definition initial_state :: app_state where
  "initial_state =
     \<lparr>scenarios = [], selectedScenario = ''conflict'', primaryMission = None,
      otherMissions = [], verificationResult = None, isLoading = False, useML = False,
      mlAvailable = False, currentTime = 0, isPlaying = False, trajectories = [],
      view3D = True\<rparr>"

section \<open>Scenario loading: \<^verbatim>\<open>loadScenario\<close>\<close>

definition loadScenario :: "string \<Rightarrow> (string \<times> scenario) list \<Rightarrow> app_state \<Rightarrow> app_state" where
  "loadScenario scenarioKey scenariosData s =
     (case map_of scenariosData scenarioKey of
        None \<Rightarrow> s
      | Some sc \<Rightarrow>
          s\<lparr>primaryMission := Some (primary sc),
            otherMissions := others sc,
            selectedScenario := scenarioKey,
            verificationResult := None,
            currentTime := 0,
            isPlaying := False\<rparr>)"

section \<open>Animation clock: the interval callback\<close>

text \<open>
  The effect installs the 50ms interval only when \<^verbatim>\<open>isPlaying\<close> holds and a
  primary mission is loaded; one firing of the interval runs the updater
  \<^verbatim>\<open>t => { if (t >= maxTime) { setIsPlaying(false); return maxTime; } return t + 1; }\<close>.
\<close>

definition tick :: "app_state \<Rightarrow> app_state" where
  "tick s =
     (if \<not> isPlaying s then s
      else case primaryMission s of
        None \<Rightarrow> s
      | Some pm \<Rightarrow>
          (let maxTime = tw_end (timeWindow pm); t = currentTime s in
           if t \<ge> maxTime then s\<lparr>currentTime := maxTime, isPlaying := False\<rparr>
           else s\<lparr>currentTime := t + 1\<rparr>))"

text \<open>The Play/Pause and Reset button handlers.\<close>

definition playPause :: "app_state \<Rightarrow> app_state" where
  "playPause s = s\<lparr>isPlaying := \<not> isPlaying s\<rparr>"

definition reset :: "app_state \<Rightarrow> app_state" where
  "reset s = s\<lparr>currentTime := 0, isPlaying := False\<rparr>"

section \<open>Backend calls: \<^verbatim>\<open>loadTrajectories\<close> and \<^verbatim>\<open>verifyMission\<close>\<close>

text \<open>
  The backend is a parameter. A call answers \<open>Inl\<close> when the \<^verbatim>\<open>try\<close> block
  throws (the request fails, or the body is not the JSON object expected) and \<open>Inr\<close>
  with the value read from the response otherwise. What a function does besides
  updating the state (requests issued, console errors, alerts) is returned as a list of
  effects, in order.
\<close>

datatype js_error = FetchFailed | TypeError

record verify_request =
  req_primary :: mission
  req_others :: "mission list"
  req_useML :: bool

datatype effect =
    VerifyRequest verify_request
  | TrajectoryRequest "mission option" nat
  | ConsoleError
  | Alert

record backend =
  verify_api :: "verify_request \<Rightarrow> js_error + verification_result"
  trajectory_api :: "mission \<Rightarrow> js_error + trajectory option"

text \<open>
  The \<^verbatim>\<open>for (const mission of allMissions)\<close> loop over \<^verbatim>\<open>trajData\<close>: a response
  stores \<^verbatim>\<open>data.trajectory\<close> under \<^verbatim>\<open>mission.id\<close>, a thrown error is
  logged and the loop goes on.
\<close>

fun fetch_loop ::
  "(mission \<Rightarrow> js_error + trajectory option) \<Rightarrow> mission list
     \<Rightarrow> (string \<times> trajectory option) list
     \<Rightarrow> (string \<times> trajectory option) list \<times> effect list" where
  "fetch_loop api [] trajData = (trajData, [])"
| "fetch_loop api (m # rest) trajData =
     (case api m of
        Inr tr \<Rightarrow>
          (case fetch_loop api rest (AList.update (mid m) tr trajData) of
             (d, effs) \<Rightarrow> (d, TrajectoryRequest (Some m) 50 # effs))
      | Inl err \<Rightarrow>
          (case fetch_loop api rest trajData of
             (d, effs) \<Rightarrow> (d, TrajectoryRequest (Some m) 50 # ConsoleError # effs)))"

text \<open>
  \<^verbatim>\<open>allMissions = [primaryMission, ...otherMissions]\<close>. With no primary mission the
  first element is \<^verbatim>\<open>null\<close>: the request is sent, and reading \<^verbatim>\<open>mission.id\<close>
  throws a TypeError in the \<^verbatim>\<open>try\<close> block or, when the request failed, in the
  \<^verbatim>\<open>catch\<close> block, which leaves the function.
\<close>

definition loadTrajectories ::
  "(mission \<Rightarrow> js_error + trajectory option) \<Rightarrow> app_state
     \<Rightarrow> (js_error + app_state) \<times> effect list" where
  "loadTrajectories api s =
     (case primaryMission s of
        None \<Rightarrow> (Inl TypeError, [TrajectoryRequest None 50])
      | Some pm \<Rightarrow>
          (case fetch_loop api (pm # otherMissions s) [] of
             (trajData, effs) \<Rightarrow> (Inr (s\<lparr>trajectories := trajData\<rparr>), effs)))"

definition verifyMission :: "backend \<Rightarrow> app_state \<Rightarrow> app_state \<times> effect list" where
  "verifyMission be s =
     (case primaryMission s of
        None \<Rightarrow> (s, [])
      | Some pm \<Rightarrow>
          if otherMissions s = [] then (s, [])
          else
            (let s1 = s\<lparr>isLoading := True\<rparr>;
                 req = \<lparr>req_primary = pm, req_others = otherMissions s,
                        req_useML = (useML s \<and> mlAvailable s)\<rparr>
             in case verify_api be req of
                  Inl err \<Rightarrow> (s1\<lparr>isLoading := False\<rparr>, [VerifyRequest req, ConsoleError, Alert])
                | Inr result \<Rightarrow>
                    (let s2 = s1\<lparr>verificationResult := Some result\<rparr>
                     in case loadTrajectories (trajectory_api be) s2 of
                          (Inl err, effs) \<Rightarrow>
                            (s2\<lparr>isLoading := False\<rparr>,
                             VerifyRequest req # effs @ [ConsoleError, Alert])
                        | (Inr s3, effs) \<Rightarrow>
                            (s3\<lparr>isLoading := False\<rparr>, VerifyRequest req # effs))))"

section \<open>Scene composition: \<^verbatim>\<open>render3DView\<close>\<close>

text \<open>
  The SVG elements the function returns, with the attributes that depend on data. The
  path string \<^verbatim>\<open>d\<close> is kept as its list of commands, since the printing of numbers
  is not modelled; a circle with no \<^verbatim>\<open>opacity\<close> attribute has opacity 1.
\<close>

datatype path_cmd = MoveTo | LineTo

datatype primitive =
    Line real real real real string
  | Path "(path_cmd \<times> real \<times> real) list" string real
  | Circle real real real string real "string option"
  | Text real real string string
  | Rect real real string
  | Group string "primitive list"

definition renderPath :: "vec3 list \<Rightarrow> string \<Rightarrow> real \<Rightarrow> primitive list" where
  "renderPath wps color opacity =
     (let points = map (\<lambda>w. project (vx w) (vy w) (vz w)) wps;
          pathD = map (\<lambda>(i, p). (if i = 0 then MoveTo else LineTo, sx p, sy p))
                    (enumerate 0 points)
      in Path pathD color opacity
           # map (\<lambda>p. Circle (sx p) (sy p) 3 color opacity None) points)"

definition renderDrone :: "app_state \<Rightarrow> string \<Rightarrow> string \<Rightarrow> string \<Rightarrow> primitive option" where
  "renderDrone s missionId color label =
     (case map_of (trajectories s) missionId of
        None \<Rightarrow> None
      | Some None \<Rightarrow> None
      | Some (Some trajectory) \<Rightarrow>
          (case getPositionAtTime (Some trajectory) (currentTime s) of
             None \<Rightarrow> None
           | Some pos \<Rightarrow>
               (let p = project (vx pos) (vy pos) (vz pos)
                in Some (Group []
                     [Circle (sx p) (sy p) 8 color 1 (Some ''white''),
                      Text (sx p) (sy p - 15) color label]))))"

definition other_color :: "nat \<Rightarrow> string" where
  "other_color i = (if i = 0 then ''#ef4444'' else ''#f59e0b'')"

definition legend :: primitive where
  "legend =
     Group ''translate(20, 20)''
       [Rect 160 80 ''rgba(0,0,0,0.7)'',
        Circle 15 20 6 ''#3b82f6'' 1 None, Text 30 25 ''white'' ''Primary'',
        Circle 15 45 6 ''#ef4444'' 1 None, Text 30 50 ''white'' ''Drone-A'',
        Circle 15 70 6 ''#f59e0b'' 1 None, Text 30 75 ''white'' ''Drone-B'']"

definition render3DView :: "app_state \<Rightarrow> primitive list option" where
  "render3DView s =
     (case primaryMission s of
        None \<Rightarrow> None
      | Some pm \<Rightarrow>
          Some
           (map (\<lambda>i. Group ''opacity=0.1''
                  [Line (offsetX + real i * 50) (offsetY - 200)
                        (offsetX + real i * 50) (offsetY + 100) ''white'',
                   Line (offsetX - 200) (offsetY + real i * 30)
                        (offsetX + 400) (offsetY + real i * 30) ''white''])
                [0..<8]
            @ renderPath (waypoints pm) ''#3b82f6'' 0.5
            @ concat (map (\<lambda>(i, drone). renderPath (waypoints drone) (other_color i) 0.3)
                        (enumerate 0 (otherMissions s)))
            @ (case verificationResult s of
                 None \<Rightarrow> []
               | Some vr \<Rightarrow>
                   map (\<lambda>c. let p = project (vx (location c)) (vy (location c)) (vz (location c))
                            in Circle (sx p) (sy p) (15 * scale) ''red'' 0.2 (Some ''red''))
                     (conflicts vr))
            @ (case renderDrone s (mid pm) ''#3b82f6'' ''PRIMARY'' of
                 None \<Rightarrow> [] | Some g \<Rightarrow> [g])
            @ concat (map (\<lambda>(i, drone).
                             case renderDrone s (mid drone) (other_color i) (mid drone) of
                               None \<Rightarrow> [] | Some g \<Rightarrow> [g])
                        (enumerate 0 (otherMissions s)))
            @ [legend]))"

section \<open>Events of a session\<close>

text \<open>
  What can happen to the state: an interval firing, a button click, a response to one of
  the two requests sent on mount, a verification run to completion against a backend.
  The Play/Pause, Reset and view buttons are rendered only while the trajectory object
  has a key; the ML toggle only while \<^verbatim>\<open>mlAvailable\<close> holds.
\<close>

datatype event =
    Tick
  | PlayPause
  | Reset
  | LoadScenario string
  | ScenariosLoaded "(string \<times> scenario) list"
  | HealthLoaded bool
  | Verify backend
  | ToggleML
  | ToggleView

fun step :: "event \<Rightarrow> app_state \<Rightarrow> app_state" where
  "step Tick s = tick s"
| "step PlayPause s = (if trajectories s = [] then s else playPause s)"
| "step Reset s = (if trajectories s = [] then s else reset s)"
| "step (LoadScenario k) s = loadScenario k (scenarios s) s"
| "step (ScenariosLoaded d) s = loadScenario ''conflict'' d (s\<lparr>scenarios := d\<rparr>)"
| "step (HealthLoaded b) s = s\<lparr>mlAvailable := b\<rparr>"
| "step (Verify be) s = fst (verifyMission be s)"
| "step ToggleML s = (if mlAvailable s then s\<lparr>useML := \<not> useML s\<rparr> else s)"
| "step ToggleView s = (if trajectories s = [] then s else s\<lparr>view3D := \<not> view3D s\<rparr>)"

fun run :: "event list \<Rightarrow> app_state \<Rightarrow> app_state" where
  "run [] s = s"
| "run (e # es) s = run es (step e s)"

section \<open>The clock as the specification words it\<close>

text \<open>
  The tick of the specification, for comparison with \<open>tick\<close>: the time is advanced
  first, and the bound is tested on the new time.
\<close>

definition tick_as_claimed :: "app_state \<Rightarrow> app_state" where
  "tick_as_claimed s =
     (if \<not> isPlaying s then s
      else case primaryMission s of
        None \<Rightarrow> s
      | Some pm \<Rightarrow>
          (let new_time = currentTime s + 1 in
           if new_time \<ge> tw_end (timeWindow pm)
           then s\<lparr>currentTime := tw_end (timeWindow pm), isPlaying := False\<rparr>
           else s\<lparr>currentTime := new_time\<rparr>))"

text \<open>
  A non-negative whole number, and the catalogues whose primary missions end at one.
  \<open>clock_inv\<close> is the invariant of the clock under such catalogues.
\<close>

definition whole :: "real \<Rightarrow> bool" where
  "whole x = (0 \<le> x \<and> of_int \<lfloor>x\<rfloor> = x)"

definition whole_end :: "mission \<Rightarrow> bool" where
  "whole_end m = whole (tw_end (timeWindow m))"

definition whole_ends :: "event \<Rightarrow> bool" where
  "whole_ends e =
     (case e of
        ScenariosLoaded d \<Rightarrow> list_all (\<lambda>(k, sc). whole_end (primary sc)) d
      | _ \<Rightarrow> True)"

definition clock_inv :: "app_state \<Rightarrow> bool" where
  "clock_inv s =
     (list_all (\<lambda>(k, sc). whole_end (primary sc)) (scenarios s)
      \<and> whole (currentTime s)
      \<and> (case primaryMission s of
            None \<Rightarrow> currentTime s = 0
          | Some pm \<Rightarrow> whole_end pm \<and> currentTime s \<le> tw_end (timeWindow pm)))"

section \<open>A sample session\<close>

text \<open>
  Concrete data for evaluating the model: a catalogue with the two scenario keys of the
  buttons, a backend that answers every request, one whose trajectory request for
  \<open>drone_a\<close> fails, and the state reached by loading the catalogue, verifying, pressing
  Play and letting the interval fire \<open>n\<close> times.
\<close>

definition ex_mission :: "string \<Rightarrow> real \<Rightarrow> real \<Rightarrow> mission" where
  "ex_mission name t0 t1 =
     \<lparr>mid = name,
      waypoints = [\<lparr>vx = 0, vy = 0, vz = 10\<rparr>, \<lparr>vx = 100, vy = 100, vz = 10\<rparr>],
      timeWindow = \<lparr>tw_start = t0, tw_end = t1\<rparr>\<rparr>"

definition ex_catalogue :: "real \<Rightarrow> real \<Rightarrow> (string \<times> scenario) list" where
  "ex_catalogue t0 t1 =
     [(''conflict'',
       \<lparr>primary = ex_mission ''primary'' t0 t1,
        others = [ex_mission ''drone_a'' t0 t1, ex_mission ''drone_b'' t0 t1]\<rparr>),
      (''clear'',
       \<lparr>primary = ex_mission ''primary'' t0 t1, others = [ex_mission ''drone_c'' t0 t1]\<rparr>)]"

definition ex_samples :: trajectory where
  "ex_samples =
     [\<lparr>time = 0, position = \<lparr>vx = 1, vy = 1, vz = 1\<rparr>\<rparr>,
      \<lparr>time = 10, position = \<lparr>vx = 2, vy = 2, vz = 2\<rparr>\<rparr>,
      \<lparr>time = 4, position = \<lparr>vx = 3, vy = 3, vz = 3\<rparr>\<rparr>]"

definition ex_trajectory :: trajectory where
  "ex_trajectory = [\<lparr>time = 0, position = \<lparr>vx = 0, vy = 0, vz = 10\<rparr>\<rparr>]"

definition ex_backend :: backend where
  "ex_backend =
     \<lparr>verify_api =
        (\<lambda>req. Inr \<lparr>status = CLEAR, conflicts = [], analysisTime = 0, mlUsed = False\<rparr>),
      trajectory_api = (\<lambda>m. Inr (Some ex_trajectory))\<rparr>"

definition ex_flaky_api :: "mission \<Rightarrow> js_error + trajectory option" where
  "ex_flaky_api m = (if mid m = ''drone_a'' then Inl FetchFailed else Inr (Some ex_trajectory))"

definition ex_playing :: "real \<Rightarrow> real \<Rightarrow> nat \<Rightarrow> app_state" where
  "ex_playing t0 t1 n =
     run ([ScenariosLoaded (ex_catalogue t0 t1), Verify ex_backend, PlayPause] @ replicate n Tick)
       initial_state"

text \<open>
  Two more backends and a catalogue for the trajectory loader: a catalogue whose two
  other missions share the identifier \<open>drone_a\<close>, with a backend whose request fails for
  the second of them, and a backend whose response for \<open>drone_a\<close> has no
  \<^verbatim>\<open>trajectory\<close> field.
\<close>

definition ex_shared_id_state :: app_state where
  "ex_shared_id_state =
     run [ScenariosLoaded
            [(''conflict'',
              \<lparr>primary = ex_mission ''primary'' 0 5,
               others = [ex_mission ''drone_a'' 0 5, ex_mission ''drone_a'' 0 9]\<rparr>)]]
       initial_state"

definition ex_shared_id_api :: "mission \<Rightarrow> js_error + trajectory option" where
  "ex_shared_id_api m =
     (if tw_end (timeWindow m) = 9 then Inl FetchFailed else Inr (Some ex_trajectory))"

definition ex_no_field_api :: "mission \<Rightarrow> js_error + trajectory option" where
  "ex_no_field_api m = (if mid m = ''drone_a'' then Inr None else Inr (Some ex_trajectory))"

section \<open>Sampler: the loop finds the first nearest sample\<close>

lemma closest_loop_decomp:
  "\<exists>ys zs. c # xs = ys @ fst (closest_loop xs t (c, \<bar>time c - t\<bar>)) # zs
     \<and> (\<forall>s\<in>set ys. \<bar>time (fst (closest_loop xs t (c, \<bar>time c - t\<bar>))) - t\<bar> < \<bar>time s - t\<bar>)
     \<and> (\<forall>s\<in>set zs. \<bar>time (fst (closest_loop xs t (c, \<bar>time c - t\<bar>))) - t\<bar> \<le> \<bar>time s - t\<bar>)"
proof (induction xs arbitrary: c)
  case Nil
  have "c # [] = [] @ c # []" by simp
  then show ?case by (intro exI [of _ "[]"]) simp
next
  case (Cons y ys')
  show ?case
  proof (cases "\<bar>time y - t\<bar> < \<bar>time c - t\<bar>")
    case True
    define r where "r = fst (closest_loop ys' t (y, \<bar>time y - t\<bar>))"
    from Cons.IH [of y] obtain ys zs where d: "y # ys' = ys @ r # zs"
      and before: "\<forall>s\<in>set ys. \<bar>time r - t\<bar> < \<bar>time s - t\<bar>"
      and after: "\<forall>s\<in>set zs. \<bar>time r - t\<bar> \<le> \<bar>time s - t\<bar>"
      unfolding r_def by blast
    have "y \<in> set (ys @ r # zs)" using d by (metis list.set_intros(1))
    then have "\<bar>time r - t\<bar> \<le> \<bar>time y - t\<bar>" using before after by auto
    then have rc: "\<bar>time r - t\<bar> < \<bar>time c - t\<bar>" using True by linarith
    have res: "fst (closest_loop (y # ys') t (c, \<bar>time c - t\<bar>)) = r"
      using True by (simp add: r_def)
    have "c # y # ys' = (c # ys) @ r # zs" using d by simp
    moreover have "\<forall>s\<in>set (c # ys). \<bar>time r - t\<bar> < \<bar>time s - t\<bar>"
      using before rc by simp
    ultimately show ?thesis using after unfolding res by blast
  next
    case False
    define r where "r = fst (closest_loop ys' t (c, \<bar>time c - t\<bar>))"
    from Cons.IH [of c] obtain ys zs where d: "c # ys' = ys @ r # zs"
      and before: "\<forall>s\<in>set ys. \<bar>time r - t\<bar> < \<bar>time s - t\<bar>"
      and after: "\<forall>s\<in>set zs. \<bar>time r - t\<bar> \<le> \<bar>time s - t\<bar>"
      unfolding r_def by blast
    have res: "fst (closest_loop (y # ys') t (c, \<bar>time c - t\<bar>)) = r"
      using False by (simp add: r_def)
    show ?thesis
    proof (cases ys)
      case Nil
      then have "r = c" and "zs = ys'" using d by simp_all
      then have "c # y # ys' = [] @ r # (y # zs)" by simp
      moreover have "\<forall>s\<in>set (y # zs). \<bar>time r - t\<bar> \<le> \<bar>time s - t\<bar>"
        using after False \<open>r = c\<close> by simp
      ultimately show ?thesis unfolding res by (metis empty_iff empty_set)
    next
      case (Cons c' ys'')
      then have c': "c' = c" and tl: "ys' = ys'' @ r # zs" using d by simp_all
      have "c \<in> set ys" using Cons c' by simp
      then have "\<bar>time r - t\<bar> < \<bar>time c - t\<bar>" using before by blast
      then have ry: "\<bar>time r - t\<bar> < \<bar>time y - t\<bar>" using False by linarith
      have "c # y # ys' = (c # y # ys'') @ r # zs" using tl by simp
      moreover have "\<forall>s\<in>set (c # y # ys''). \<bar>time r - t\<bar> < \<bar>time s - t\<bar>"
        using before ry Cons c' by simp
      ultimately show ?thesis using after unfolding res by blast
    qed
  qed
qed

lemma getPositionAtTime_decomp:
  assumes "traj \<noteq> []"
  shows "\<exists>ys r zs. traj = ys @ r # zs
     \<and> getPositionAtTime (Some traj) t = Some (position r)
     \<and> (\<forall>s\<in>set ys. \<bar>time r - t\<bar> < \<bar>time s - t\<bar>)
     \<and> (\<forall>s\<in>set zs. \<bar>time r - t\<bar> \<le> \<bar>time s - t\<bar>)"
proof -
  from assms obtain s0 rest where traj: "traj = s0 # rest" by (cases traj) auto
  define r where "r = fst (closest_loop (s0 # rest) t (s0, \<bar>time s0 - t\<bar>))"
  have step: "closest_loop (s0 # rest) t (s0, \<bar>time s0 - t\<bar>)
      = closest_loop rest t (s0, \<bar>time s0 - t\<bar>)"
    by simp
  from closest_loop_decomp [of s0 rest t] obtain ys zs where
    "s0 # rest = ys @ r # zs"
    "\<forall>s\<in>set ys. \<bar>time r - t\<bar> < \<bar>time s - t\<bar>"
    "\<forall>s\<in>set zs. \<bar>time r - t\<bar> \<le> \<bar>time s - t\<bar>"
    unfolding r_def step by blast
  moreover have "getPositionAtTime (Some traj) t = Some (position r)"
    by (simp add: getPositionAtTime_def traj r_def del: closest_loop.simps)
  ultimately show ?thesis using traj by blast
qed

text \<open>
  C7. For every query time, \<^verbatim>\<open>getPositionAtTime\<close> on an absent trajectory and on an
  empty trajectory returns the absent result \<^verbatim>\<open>null\<close>; the model has no error branch,
  since neither path of the source can throw.
\<close>

theorem getPositionAtTime_empty_or_absent:
  "getPositionAtTime None t = None \<and> getPositionAtTime (Some []) t = None"
  by (simp add: getPositionAtTime_def)

text \<open>
  C1. For a non-empty trajectory and any query time \<open>t\<close>, the result is the position of
  the sample at some index \<open>i\<close> whose time distance to \<open>t\<close> is minimal over the whole
  trajectory and strictly smaller than that of every earlier sample (the first minimal
  one). If some sample has time exactly \<open>t\<close>, the chosen sample has time \<open>t\<close> and is the
  first such sample.
\<close>

theorem getPositionAtTime_first_nearest:
  assumes "traj \<noteq> []"
  shows "\<exists>i<length traj.
      getPositionAtTime (Some traj) t = Some (position (traj ! i))
    \<and> (\<forall>j<length traj. \<bar>time (traj ! i) - t\<bar> \<le> \<bar>time (traj ! j) - t\<bar>)
    \<and> (\<forall>j<i. \<bar>time (traj ! i) - t\<bar> < \<bar>time (traj ! j) - t\<bar>)
    \<and> ((\<exists>s\<in>set traj. time s = t) \<longrightarrow>
          time (traj ! i) = t \<and> (\<forall>j<i. time (traj ! j) \<noteq> t))"
proof -
  from getPositionAtTime_decomp [OF assms, of t] obtain ys r zs where
    d: "traj = ys @ r # zs"
    and res: "getPositionAtTime (Some traj) t = Some (position r)"
    and before: "\<forall>s\<in>set ys. \<bar>time r - t\<bar> < \<bar>time s - t\<bar>"
    and after: "\<forall>s\<in>set zs. \<bar>time r - t\<bar> \<le> \<bar>time s - t\<bar>"
    by blast
  let ?i = "length ys"
  have i: "?i < length traj" and ri: "traj ! ?i = r" using d by simp_all
  have all: "\<forall>s\<in>set traj. \<bar>time r - t\<bar> \<le> \<bar>time s - t\<bar>"
    using d before after by auto
  have minimal: "\<forall>j<length traj. \<bar>time r - t\<bar> \<le> \<bar>time (traj ! j) - t\<bar>"
    using all by simp
  have first: "\<forall>j<?i. \<bar>time r - t\<bar> < \<bar>time (traj ! j) - t\<bar>"
    using d before by (simp add: nth_append)
  have exact: "(\<exists>s\<in>set traj. time s = t) \<longrightarrow> time r = t \<and> (\<forall>j<?i. time (traj ! j) \<noteq> t)"
  proof
    assume "\<exists>s\<in>set traj. time s = t"
    then obtain s where "s \<in> set traj" "time s = t" by blast
    with all have "\<bar>time r - t\<bar> \<le> 0" by fastforce
    then have rt: "time r = t" by simp
    have "\<forall>j<?i. time (traj ! j) \<noteq> t"
    proof (intro allI impI)
      fix j assume "j < ?i"
      with first have "\<bar>time r - t\<bar> < \<bar>time (traj ! j) - t\<bar>" by blast
      with rt show "time (traj ! j) \<noteq> t" by auto
    qed
    with rt show "time r = t \<and> (\<forall>j<?i. time (traj ! j) \<noteq> t)" by blast
  qed
  show ?thesis
    using i res minimal first exact unfolding ri [symmetric] by blast
qed

text \<open>
  At time 7 the samples at times 10 and 4 are equally near: the earlier one is chosen.
  At time 4 the sample with that time is chosen.
\<close>

theorem getPositionAtTime_first_nearest_witness:
  "ex_samples \<noteq> []
   \<and> getPositionAtTime (Some ex_samples) 7 = Some \<lparr>vx = 2, vy = 2, vz = 2\<rparr>
   \<and> (\<exists>s\<in>set ex_samples. time s = 4)
   \<and> getPositionAtTime (Some ex_samples) 4 = Some \<lparr>vx = 3, vy = 3, vz = 3\<rparr>"
proof -
  have ne: "ex_samples \<noteq> []" by (simp add: ex_samples_def)
  have four: "\<exists>s\<in>set ex_samples. time s = 4" by (simp add: ex_samples_def)
  from getPositionAtTime_first_nearest [OF ne, of 7] obtain i where
    i: "i < length ex_samples"
    and res: "getPositionAtTime (Some ex_samples) 7 = Some (position (ex_samples ! i))"
    and minimal: "\<forall>j<length ex_samples.
        \<bar>time (ex_samples ! i) - 7\<bar> \<le> \<bar>time (ex_samples ! j) - 7\<bar>"
    and first: "\<forall>j<i. \<bar>time (ex_samples ! i) - 7\<bar> < \<bar>time (ex_samples ! j) - 7\<bar>"
    by blast
  have "i = 0 \<or> i = 1 \<or> i = 2" using i by (auto simp: ex_samples_def)
  moreover have "i \<noteq> 0"
  proof
    assume "i = 0"
    with minimal [rule_format, of 1] show False by (simp add: ex_samples_def)
  qed
  moreover have "i \<noteq> 2"
  proof
    assume "i = 2"
    with first [rule_format, of 1] show False by (simp add: ex_samples_def)
  qed
  ultimately have "i = 1" by blast
  with res have seven: "getPositionAtTime (Some ex_samples) 7 = Some \<lparr>vx = 2, vy = 2, vz = 2\<rparr>"
    by (simp add: ex_samples_def)
  from getPositionAtTime_first_nearest [OF ne, of 4] four obtain k where
    k: "k < length ex_samples"
    and res4: "getPositionAtTime (Some ex_samples) 4 = Some (position (ex_samples ! k))"
    and exact: "time (ex_samples ! k) = 4"
    by blast
  have "k = 0 \<or> k = 1 \<or> k = 2" using k by (auto simp: ex_samples_def)
  with exact have "k = 2" by (auto simp: ex_samples_def)
  with res4 have "getPositionAtTime (Some ex_samples) 4 = Some \<lparr>vx = 3, vy = 3, vz = 3\<rparr>"
    by (simp add: ex_samples_def)
  with ne four seven show ?thesis by blast
qed

section \<open>Projection: formula and affinity\<close>

lemma project_closed_form:
  "project x y z = \<lparr>sx = 200 + (x - y) * sqrt 3 * 5 / 4, sy = 300 - 2 * z + (x + y) * 5 / 4\<rparr>"
  by (simp add: project_def scale_def offsetX_def offsetY_def cos_30 sin_30)

text \<open>
  C5. For every input \<open>(x, y, z)\<close>, \<^verbatim>\<open>project\<close> returns exactly the pair
  \<open>(offsetX + (x - y) * cos (pi/6) * scale, offsetY - z * scale * 0.8 + (x + y) * sin (pi/6) * scale)\<close>
  with \<open>scale = 2.5\<close>, \<open>offsetX = 200\<close> and \<open>offsetY = 300\<close>; the result is a function
  of the three arguments alone.
\<close>

theorem project_formula:
  "project x y z =
     \<lparr>sx = 200 + (x - y) * cos (pi / 6) * 2.5,
      sy = 300 - z * 2.5 * 0.8 + (x + y) * sin (pi / 6) * 2.5\<rparr>
   \<and> scale = 2.5 \<and> offsetX = 200 \<and> offsetY = 300"
  by (simp add: project_def scale_def offsetX_def offsetY_def)

text \<open>
  C6. For every point \<open>(x, y, z)\<close> and offset \<open>(dx, dy, dz)\<close>, the difference
  \<open>project (x+dx, y+dy, z+dz) - project (x, y, z)\<close> is the same at every other point
  \<open>(x', y', z')\<close>: it is a linear function of the offset alone, so the transform is
  affine. Equal input points project to equal output points.
\<close>

theorem project_affine:
  "point2_diff (project (x + dx) (y + dy) (z + dz)) (project x y z)
     = point2_diff (project (x' + dx) (y' + dy) (z' + dz)) (project x' y' z')
   \<and> point2_diff (project (x + dx) (y + dy) (z + dz)) (project x y z)
     = \<lparr>sx = (dx - dy) * cos (pi / 6) * scale,
        sy = - dz * scale * 0.8 + (dx + dy) * sin (pi / 6) * scale\<rparr>
   \<and> ((x, y, z) = (x', y', z') \<longrightarrow> project x y z = project x' y' z')"
  by (simp add: project_def point2_diff_def algebra_simps add_divide_distrib)

theorem project_affine_witness:
  "point2_diff (project (1 + 4) (2 + 5) (3 + 6)) (project 1 2 3)
     = point2_diff (project (10 + 4) (20 + 5) (30 + 6)) (project 10 20 30)
   \<and> point2_diff (project (1 + 4) (2 + 5) (3 + 6)) (project 1 2 3)
     = \<lparr>sx = - (sqrt 3 * 5 / 4), sy = - (3 / 4)\<rparr>
   \<and> ((1::real, 2::real, 3::real) = (1, 2, 3) \<and> project 1 2 3 = project 1 2 3)"
proof -
  have a: "point2_diff (project (1 + 4) (2 + 5) (3 + 6)) (project 1 2 3)
     = point2_diff (project (10 + 4) (20 + 5) (30 + 6)) (project 10 20 30)"
    using project_affine [of 1 4 2 5 3 6 10 20 30] by blast
  have "point2_diff (project (1 + 4) (2 + 5) (3 + 6)) (project 1 2 3)
     = \<lparr>sx = (4 - 5) * cos (pi / 6) * scale,
        sy = - 6 * scale * 0.8 + (4 + 5) * sin (pi / 6) * scale\<rparr>"
    using project_affine [of 1 4 2 5 3 6 10 20 30] by blast
  then have b: "point2_diff (project (1 + 4) (2 + 5) (3 + 6)) (project 1 2 3)
     = \<lparr>sx = - (sqrt 3 * 5 / 4), sy = - (3 / 4)\<rparr>"
    by (simp add: scale_def cos_30 sin_30)
  have c: "project 1 2 3 = project 1 2 3"
    using project_affine [of 1 0 2 0 3 0 1 2 3] by blast
  show ?thesis using a b c by simp
qed

section \<open>Evaluating the sample session\<close>

lemmas ex_defs =
  ex_playing_def ex_catalogue_def ex_mission_def ex_backend_def ex_trajectory_def
  initial_state_def loadScenario_def verifyMission_def loadTrajectories_def
  playPause_def reset_def tick_def Let_def numeral_eq_Suc

section \<open>The animation clock\<close>

text \<open>
  C2 (as the code has it). While the clock is Playing with a primary mission loaded, a
  tick at time \<open>t\<close> with \<open>t + 1 \<le> end\<close> sets the time to \<open>t + 1\<close> and leaves the state
  Playing, also when \<open>t + 1 = end\<close>; a tick at time \<open>t \<ge> end\<close> sets the time to \<open>end\<close>
  and moves to Stopped. The bound is tested on the time before the tick, so the move to
  Stopped happens on the tick after the one on which the time reaches \<open>end\<close>.
\<close>

theorem tick_guard_on_old_time:
  assumes "isPlaying s" and "primaryMission s = Some pm"
  shows "(currentTime s + 1 \<le> tw_end (timeWindow pm) \<longrightarrow>
            tick s = s\<lparr>currentTime := currentTime s + 1\<rparr> \<and> isPlaying (tick s))
       \<and> (tw_end (timeWindow pm) \<le> currentTime s \<longrightarrow>
            tick s = s\<lparr>currentTime := tw_end (timeWindow pm), isPlaying := False\<rparr>)
       \<and> (currentTime s + 1 = tw_end (timeWindow pm) \<longrightarrow>
            tick (tick s) = s\<lparr>currentTime := tw_end (timeWindow pm), isPlaying := False\<rparr>)"
  using assms by (simp add: tick_def Let_def)

text \<open>
  In the sample session with \<open>end = 5\<close>: the tick at time 4 gives time 5 and stays Playing,
  the tick at time 5 stops.
\<close>

theorem tick_guard_on_old_time_witness:
  "isPlaying (ex_playing 0 5 4)
   \<and> primaryMission (ex_playing 0 5 4) = Some (ex_mission ''primary'' 0 5)
   \<and> currentTime (ex_playing 0 5 4) + 1 = tw_end (timeWindow (ex_mission ''primary'' 0 5))
   \<and> tick (ex_playing 0 5 4) = (ex_playing 0 5 4)\<lparr>currentTime := 5\<rparr>
   \<and> tick (tick (ex_playing 0 5 4)) = (ex_playing 0 5 4)\<lparr>currentTime := 5, isPlaying := False\<rparr>
   \<and> isPlaying (ex_playing 0 5 5)
   \<and> primaryMission (ex_playing 0 5 5) = Some (ex_mission ''primary'' 0 5)
   \<and> tw_end (timeWindow (ex_mission ''primary'' 0 5)) \<le> currentTime (ex_playing 0 5 5)
   \<and> tick (ex_playing 0 5 5) = (ex_playing 0 5 5)\<lparr>currentTime := 5, isPlaying := False\<rparr>"
proof -
  have p: "isPlaying (ex_playing 0 5 4)"
    and m: "primaryMission (ex_playing 0 5 4) = Some (ex_mission ''primary'' 0 5)"
    and t: "currentTime (ex_playing 0 5 4) = 4"
    by (simp_all add: ex_defs)
  have e: "tw_end (timeWindow (ex_mission ''primary'' 0 5)) = 5"
    by (simp add: ex_mission_def)
  have eq: "currentTime (ex_playing 0 5 4) + 1 = tw_end (timeWindow (ex_mission ''primary'' 0 5))"
    using t e by simp
  note th = tick_guard_on_old_time [OF p m]
  have a: "tick (ex_playing 0 5 4)
      = (ex_playing 0 5 4)\<lparr>currentTime := currentTime (ex_playing 0 5 4) + 1\<rparr>"
    using th eq by linarith
  have b: "tick (tick (ex_playing 0 5 4))
      = (ex_playing 0 5 4)\<lparr>currentTime := tw_end (timeWindow (ex_mission ''primary'' 0 5)),
          isPlaying := False\<rparr>"
    using th eq by blast
  have first: "isPlaying (ex_playing 0 5 4)
   \<and> primaryMission (ex_playing 0 5 4) = Some (ex_mission ''primary'' 0 5)
   \<and> currentTime (ex_playing 0 5 4) + 1 = tw_end (timeWindow (ex_mission ''primary'' 0 5))
   \<and> tick (ex_playing 0 5 4) = (ex_playing 0 5 4)\<lparr>currentTime := 5\<rparr>
   \<and> tick (tick (ex_playing 0 5 4)) = (ex_playing 0 5 4)\<lparr>currentTime := 5, isPlaying := False\<rparr>"
    using p m eq a b unfolding t e by simp
  have p5: "isPlaying (ex_playing 0 5 5)"
    and m5: "primaryMission (ex_playing 0 5 5) = Some (ex_mission ''primary'' 0 5)"
    and t5: "currentTime (ex_playing 0 5 5) = 5"
    by (simp_all add: ex_defs)
  have ge: "tw_end (timeWindow (ex_mission ''primary'' 0 5)) \<le> currentTime (ex_playing 0 5 5)"
    using t5 e by simp
  have "tick (ex_playing 0 5 5)
      = (ex_playing 0 5 5)\<lparr>currentTime := tw_end (timeWindow (ex_mission ''primary'' 0 5)),
          isPlaying := False\<rparr>"
    using tick_guard_on_old_time [OF p5 m5] ge by blast
  then have "tick (ex_playing 0 5 5) = (ex_playing 0 5 5)\<lparr>currentTime := 5, isPlaying := False\<rparr>"
    unfolding e .
  with first p5 m5 ge show ?thesis by blast
qed

text \<open>
  C2 as stated fails: at time 4 with \<open>end = 5\<close> the tick brings the time to 5, which
  reaches \<open>end\<close>, and the state is still Playing, where the specified tick is Stopped.
\<close>

theorem tick_stops_one_tick_late:
  "isPlaying (ex_playing 0 5 4)
   \<and> primaryMission (ex_playing 0 5 4) = Some (ex_mission ''primary'' 0 5)
   \<and> currentTime (ex_playing 0 5 4) = 4
   \<and> tw_end (timeWindow (ex_mission ''primary'' 0 5)) = 5
   \<and> currentTime (tick (ex_playing 0 5 4)) = 5
   \<and> isPlaying (tick (ex_playing 0 5 4))
   \<and> \<not> isPlaying (tick_as_claimed (ex_playing 0 5 4))
   \<and> tick (ex_playing 0 5 4) \<noteq> tick_as_claimed (ex_playing 0 5 4)"
proof -
  have a: "isPlaying (tick (ex_playing 0 5 4))"
    and b: "\<not> isPlaying (tick_as_claimed (ex_playing 0 5 4))"
    by (simp_all add: ex_defs tick_as_claimed_def)
  then have "tick (ex_playing 0 5 4) \<noteq> tick_as_claimed (ex_playing 0 5 4)" by metis
  with a b show ?thesis by (simp add: ex_defs)
qed

subsection \<open>The clock stays within the time window\<close>

lemma whole_Nats: "whole x \<longleftrightarrow> x \<in> \<nat>"
proof
  assume "whole x"
  then have nn: "0 \<le> x" and "of_int \<lfloor>x\<rfloor> = x"
    by (simp_all add: whole_def)
  then obtain n :: int where n: "x = of_int n"
    by metis
  with nn have "0 \<le> n" by simp
  with n show "x \<in> \<nat>" by (auto simp: Nats_altdef1)
next
  assume "x \<in> \<nat>"
  then obtain n :: nat where "x = of_nat n" by (auto elim: Nats_cases)
  then show "whole x" by (simp add: whole_def)
qed

lemma Nats_succ_le:
  fixes a b :: real
  assumes "a \<in> \<nat>" and "b \<in> \<nat>" and "a < b"
  shows "a + 1 \<le> b"
proof -
  from assms(1) obtain n :: nat where n: "a = of_nat n" by (auto elim: Nats_cases)
  from assms(2) obtain k :: nat where k: "b = of_nat k" by (auto elim: Nats_cases)
  from assms(3) have "n < k" unfolding n k by simp
  then have "Suc n \<le> k" by simp
  then have "real (Suc n) \<le> real k" by (simp only: of_nat_le_iff)
  then show ?thesis unfolding n k by simp
qed

lemma verifyMission_clock_frame:
  "currentTime (fst (verifyMission be s)) = currentTime s
   \<and> isPlaying (fst (verifyMission be s)) = isPlaying s
   \<and> primaryMission (fst (verifyMission be s)) = primaryMission s
   \<and> otherMissions (fst (verifyMission be s)) = otherMissions s
   \<and> scenarios (fst (verifyMission be s)) = scenarios s"
  by (auto simp: verifyMission_def loadTrajectories_def Let_def
      split: option.splits sum.splits prod.splits)

lemma loadScenario_clock_inv:
  assumes "list_all (\<lambda>(k, sc). whole_end (primary sc)) d"
    and "list_all (\<lambda>(k, sc). whole_end (primary sc)) (scenarios s)"
    and "clock_inv s"
  shows "clock_inv (loadScenario key d s)"
proof (cases "map_of d key")
  case None
  then show ?thesis using assms(3) by (simp add: loadScenario_def)
next
  case (Some sc)
  then have "(key, sc) \<in> set d" by (rule map_of_SomeD)
  with assms(1) have w: "whole_end (primary sc)" by (auto simp: list_all_iff)
  then have "0 \<le> tw_end (timeWindow (primary sc))" by (simp add: whole_end_def whole_def)
  moreover have "whole 0" by (simp add: whole_def)
  ultimately show ?thesis using w Some assms(2) by (simp add: loadScenario_def clock_inv_def)
qed

lemma tick_clock_inv:
  assumes "clock_inv s"
  shows "clock_inv (tick s)"
proof (cases "isPlaying s")
  case False
  then show ?thesis using assms by (simp add: tick_def)
next
  case True
  show ?thesis
  proof (cases "primaryMission s")
    case None
    then show ?thesis using assms by (simp add: tick_def)
  next
    case (Some pm)
    from assms Some have w: "whole_end pm" and tn: "currentTime s \<in> \<nat>"
      and sc: "list_all (\<lambda>(k, sc). whole_end (primary sc)) (scenarios s)"
      by (simp_all add: clock_inv_def whole_Nats)
    from w have en: "tw_end (timeWindow pm) \<in> \<nat>" by (simp add: whole_end_def whole_Nats)
    show ?thesis
    proof (cases "tw_end (timeWindow pm) \<le> currentTime s")
      case True
      then have "tick s = s\<lparr>currentTime := tw_end (timeWindow pm), isPlaying := False\<rparr>"
        using \<open>isPlaying s\<close> Some by (simp add: tick_def)
      then show ?thesis using w en sc Some by (simp add: clock_inv_def whole_Nats)
    next
      case False
      then have lt: "currentTime s < tw_end (timeWindow pm)" by simp
      have t: "tick s = s\<lparr>currentTime := currentTime s + 1\<rparr>"
        using \<open>isPlaying s\<close> Some False by (simp add: tick_def)
      have "currentTime s + 1 \<le> tw_end (timeWindow pm)"
        using tn en lt by (rule Nats_succ_le)
      moreover have "currentTime s + 1 \<in> \<nat>" using tn by (simp add: Nats_add)
      ultimately show ?thesis using w sc Some unfolding t by (simp add: clock_inv_def whole_Nats)
    qed
  qed
qed

lemma step_clock_inv:
  assumes "clock_inv s" and "whole_ends e"
  shows "clock_inv (step e s)"
proof (cases e)
  case Tick
  then show ?thesis using assms(1) by (simp add: tick_clock_inv)
next
  case PlayPause
  then show ?thesis using assms(1)
    by (auto simp: clock_inv_def playPause_def split: option.splits)
next
  case Reset
  have "0 \<le> tw_end (timeWindow pm)" if "whole_end pm" for pm
    using that by (simp add: whole_end_def whole_def)
  moreover have "whole 0" by (simp add: whole_def)
  ultimately show ?thesis using assms(1) Reset
    by (auto simp: clock_inv_def reset_def split: option.splits)
next
  case (LoadScenario k)
  from assms(1) have "list_all (\<lambda>(k, sc). whole_end (primary sc)) (scenarios s)"
    by (simp add: clock_inv_def)
  then show ?thesis using LoadScenario assms(1) by (simp add: loadScenario_clock_inv)
next
  case (ScenariosLoaded d)
  with assms(2) have d: "list_all (\<lambda>(k, sc). whole_end (primary sc)) d"
    by (simp add: whole_ends_def)
  have "clock_inv (s\<lparr>scenarios := d\<rparr>)" using assms(1) d
    by (auto simp: clock_inv_def split: option.splits)
  then show ?thesis using ScenariosLoaded d by (simp add: loadScenario_clock_inv)
next
  case (HealthLoaded b)
  then show ?thesis using assms(1) by (auto simp: clock_inv_def split: option.splits)
next
  case (Verify be)
  then show ?thesis using assms(1)
    by (auto simp: clock_inv_def verifyMission_clock_frame split: option.splits)
next
  case ToggleML
  then show ?thesis using assms(1) by (auto simp: clock_inv_def split: option.splits)
next
  case ToggleView
  then show ?thesis using assms(1) by (auto simp: clock_inv_def split: option.splits)
qed

lemma run_clock_inv:
  "clock_inv s \<Longrightarrow> list_all whole_ends es \<Longrightarrow> clock_inv (run es s)"
  by (induction es arbitrary: s) (simp_all add: step_clock_inv)

lemma step_idle:
  assumes "primaryMission s = None \<longrightarrow> currentTime s = 0"
  shows "primaryMission (step e s) = None \<longrightarrow> currentTime (step e s) = 0"
  using assms
  by (cases e)
     (auto simp: tick_def playPause_def reset_def loadScenario_def Let_def
        verifyMission_clock_frame split: option.splits)

lemma run_idle:
  "(primaryMission s = None \<longrightarrow> currentTime s = 0) \<Longrightarrow>
   primaryMission (run es s) = None \<longrightarrow> currentTime (run es s) = 0"
proof (induction es arbitrary: s)
  case Nil
  then show ?case by simp
next
  case (Cons e es)
  from Cons.prems have "primaryMission (step e s) = None \<longrightarrow> currentTime (step e s) = 0"
    by (rule step_idle)
  then show ?case using Cons.IH [of "step e s"] by simp
qed

lemma clock_inv_initial: "clock_inv initial_state"
  by (simp add: clock_inv_def initial_state_def whole_def)

text \<open>
  C3 (as the code has it). When every catalogue received carries primary missions whose
  \<open>timeWindow.end\<close> is a non-negative whole number, every reachable state with a primary
  mission loaded has \<open>0 \<le> time \<le> end\<close>. In every reachable state with no primary mission
  the time is 0, and a tick in a state with no primary mission changes nothing.
\<close>

theorem clock_bounds_whole_end:
  "(list_all whole_ends evs \<longrightarrow>
      (\<forall>pm. primaryMission (run evs initial_state) = Some pm \<longrightarrow>
         0 \<le> currentTime (run evs initial_state)
         \<and> currentTime (run evs initial_state) \<le> tw_end (timeWindow pm)))
   \<and> (primaryMission (run evs initial_state) = None \<longrightarrow>
         currentTime (run evs initial_state) = 0)
   \<and> (primaryMission s = None \<longrightarrow> tick s = s)"
proof (intro conjI impI allI)
  fix pm
  assume ok: "list_all whole_ends evs"
    and pm: "primaryMission (run evs initial_state) = Some pm"
  from clock_inv_initial ok have inv: "clock_inv (run evs initial_state)"
    by (rule run_clock_inv)
  then show "0 \<le> currentTime (run evs initial_state)" by (simp add: clock_inv_def whole_def)
  from inv pm show "currentTime (run evs initial_state) \<le> tw_end (timeWindow pm)"
    by (simp add: clock_inv_def)
next
  assume none: "primaryMission (run evs initial_state) = None"
  have "primaryMission initial_state = None \<longrightarrow> currentTime initial_state = 0"
    by (simp add: initial_state_def)
  then have "primaryMission (run evs initial_state) = None \<longrightarrow>
      currentTime (run evs initial_state) = 0"
    by (rule run_idle)
  with none show "currentTime (run evs initial_state) = 0" by blast
next
  assume "primaryMission s = None"
  then show "tick s = s" by (simp add: tick_def)
qed


text \<open>
  In the sample session with \<open>end = 5\<close>, seven ticks after Play leave the time at 5 and
  the clock Stopped; before any catalogue arrives, ticks and resets leave the time at 0.
\<close>

theorem clock_bounds_whole_end_witness:
  "list_all whole_ends
     ([ScenariosLoaded (ex_catalogue 0 5), Verify ex_backend, PlayPause] @ replicate 7 Tick)
   \<and> primaryMission (ex_playing 0 5 7) = Some (ex_mission ''primary'' 0 5)
   \<and> 0 \<le> currentTime (ex_playing 0 5 7)
   \<and> currentTime (ex_playing 0 5 7) \<le> tw_end (timeWindow (ex_mission ''primary'' 0 5))
   \<and> currentTime (ex_playing 0 5 7) = 5
   \<and> \<not> isPlaying (ex_playing 0 5 7)
   \<and> primaryMission (run [Tick, PlayPause, Reset, Tick] initial_state) = None
   \<and> currentTime (run [Tick, PlayPause, Reset, Tick] initial_state) = 0
   \<and> primaryMission initial_state = None
   \<and> tick initial_state = initial_state"
proof -
  have ok: "list_all whole_ends
     ([ScenariosLoaded (ex_catalogue 0 5), Verify ex_backend, PlayPause] @ replicate 7 Tick)"
    by (simp add: whole_ends_def whole_end_def whole_def ex_catalogue_def ex_mission_def
        numeral_eq_Suc)
  have pm: "primaryMission (ex_playing 0 5 7) = Some (ex_mission ''primary'' 0 5)"
    and t: "currentTime (ex_playing 0 5 7) = 5"
    and st: "\<not> isPlaying (ex_playing 0 5 7)"
    by (simp_all add: ex_defs)
  have none: "primaryMission initial_state = None" by (simp add: initial_state_def)
  have idle: "primaryMission (run [Tick, PlayPause, Reset, Tick] initial_state) = None"
    by (simp add: initial_state_def tick_def)
  note th = clock_bounds_whole_end
    [of "[ScenariosLoaded (ex_catalogue 0 5), Verify ex_backend, PlayPause] @ replicate 7 Tick"
        initial_state]
  have bounds: "0 \<le> currentTime (ex_playing 0 5 7)
      \<and> currentTime (ex_playing 0 5 7) \<le> tw_end (timeWindow (ex_mission ''primary'' 0 5))"
    using th ok pm unfolding ex_playing_def by blast
  have still: "tick initial_state = initial_state" using th none by blast
  have "currentTime (run [Tick, PlayPause, Reset, Tick] initial_state) = 0"
    using clock_bounds_whole_end [of "[Tick, PlayPause, Reset, Tick]" initial_state] idle
    by blast
  with bounds still show ?thesis using ok pm t st none idle by blast
qed

text \<open>
  C3 as stated fails for time windows with \<open>end \<ge> start\<close>: with the window \<open>[-10, -5]\<close>
  the time 0 after loading is above \<open>end\<close>; with the window \<open>[0, 2.5]\<close> the third tick
  brings the time to 3.
\<close>

theorem clock_bounds_counterexample:
  "tw_start (timeWindow (ex_mission ''primary'' (- 10) (- 5)))
     \<le> tw_end (timeWindow (ex_mission ''primary'' (- 10) (- 5)))
   \<and> primaryMission (run [ScenariosLoaded (ex_catalogue (- 10) (- 5))] initial_state)
       = Some (ex_mission ''primary'' (- 10) (- 5))
   \<and> currentTime (run [ScenariosLoaded (ex_catalogue (- 10) (- 5))] initial_state) = 0
   \<and> \<not> currentTime (run [ScenariosLoaded (ex_catalogue (- 10) (- 5))] initial_state)
         \<le> tw_end (timeWindow (ex_mission ''primary'' (- 10) (- 5)))
   \<and> tw_start (timeWindow (ex_mission ''primary'' 0 (5 / 2)))
     \<le> tw_end (timeWindow (ex_mission ''primary'' 0 (5 / 2)))
   \<and> primaryMission (ex_playing 0 (5 / 2) 3) = Some (ex_mission ''primary'' 0 (5 / 2))
   \<and> currentTime (ex_playing 0 (5 / 2) 3) = 3
   \<and> \<not> currentTime (ex_playing 0 (5 / 2) 3)
         \<le> tw_end (timeWindow (ex_mission ''primary'' 0 (5 / 2)))"
  by (simp add: ex_defs)

section \<open>Loading a scenario\<close>

lemma loadScenario_known_key:
  assumes "map_of d k = Some sc"
  shows "loadScenario k d s =
           s\<lparr>primaryMission := Some (primary sc), otherMissions := others sc,
             selectedScenario := k, verificationResult := None, currentTime := 0,
             isPlaying := False\<rparr>"
    and "trajectories (loadScenario k d s) = trajectories s"
  using assms by (simp_all add: loadScenario_def)

text \<open>
  C4. Loading the scenario \<open>clear\<close> in the sample session, after a verification and two
  ticks of playback: the missions are replaced, the verification result is absent, the
  time is 0 and the clock is Stopped, but the trajectory object still holds the entries
  of the previous scenario, and the marker of the primary mission is drawn from them.
\<close>

theorem loadScenario_keeps_trajectories:
  "map_of (scenarios (ex_playing 0 5 2)) ''clear''
     = Some \<lparr>primary = ex_mission ''primary'' 0 5, others = [ex_mission ''drone_c'' 0 5]\<rparr>
   \<and> trajectories (ex_playing 0 5 2)
     = [(''primary'', Some ex_trajectory), (''drone_a'', Some ex_trajectory),
        (''drone_b'', Some ex_trajectory)]
   \<and> trajectories (step (LoadScenario ''clear'') (ex_playing 0 5 2))
     = [(''primary'', Some ex_trajectory), (''drone_a'', Some ex_trajectory),
        (''drone_b'', Some ex_trajectory)]
   \<and> primaryMission (step (LoadScenario ''clear'') (ex_playing 0 5 2))
     = Some (ex_mission ''primary'' 0 5)
   \<and> otherMissions (step (LoadScenario ''clear'') (ex_playing 0 5 2))
     = [ex_mission ''drone_c'' 0 5]
   \<and> verificationResult (step (LoadScenario ''clear'') (ex_playing 0 5 2)) = None
   \<and> currentTime (step (LoadScenario ''clear'') (ex_playing 0 5 2)) = 0
   \<and> \<not> isPlaying (step (LoadScenario ''clear'') (ex_playing 0 5 2))
   \<and> renderDrone (step (LoadScenario ''clear'') (ex_playing 0 5 2))
        ''primary'' ''#3b82f6'' ''PRIMARY''
     \<noteq> None"
  by (simp add: ex_defs renderDrone_def getPositionAtTime_def)

section \<open>Verification and trajectory loading\<close>

text \<open>
  C10. If no primary mission is loaded or there are no other missions,
  \<^verbatim>\<open>verifyMission\<close> returns at once: the state is unchanged and no request, log or
  alert is issued.
\<close>

theorem verifyMission_guard:
  assumes "primaryMission s = None \<or> otherMissions s = []"
  shows "verifyMission be s = (s, [])"
  using assms by (auto simp: verifyMission_def split: option.splits)

theorem verifyMission_guard_witness:
  "(primaryMission initial_state = None \<or> otherMissions initial_state = [])
   \<and> verifyMission ex_backend initial_state = (initial_state, [])"
proof -
  have h: "primaryMission initial_state = None \<or> otherMissions initial_state = []"
    by (simp add: initial_state_def)
  show ?thesis using verifyMission_guard [OF h, of ex_backend] h by simp
qed

lemma fetch_loop_fst_Cons:
  "fst (fetch_loop api (m # rest) acc) =
     (case api m of
        Inr tr \<Rightarrow> fst (fetch_loop api rest (AList.update (mid m) tr acc))
      | Inl e \<Rightarrow> fst (fetch_loop api rest acc))"
  by (simp split: sum.splits prod.splits)

lemma fetch_loop_snd_Cons:
  "snd (fetch_loop api (m # rest) acc) =
     (case api m of
        Inr tr \<Rightarrow>
          TrajectoryRequest (Some m) 50 # snd (fetch_loop api rest (AList.update (mid m) tr acc))
      | Inl e \<Rightarrow>
          TrajectoryRequest (Some m) 50 # ConsoleError # snd (fetch_loop api rest acc))"
  by (simp split: sum.splits prod.splits)

lemma fetch_loop_lookup_other:
  "k \<notin> mid ` set ms \<Longrightarrow> map_of (fst (fetch_loop api ms acc)) k = map_of acc k"
proof (induction ms arbitrary: acc)
  case Nil
  show ?case by simp
next
  case (Cons a ms)
  from Cons.prems have k: "k \<noteq> mid a" and rest: "k \<notin> mid ` set ms" by auto
  show ?case
    using k Cons.IH [OF rest]
    by (simp add: fetch_loop_fst_Cons update_conv' del: fetch_loop.simps split: sum.splits)
qed

lemma fetch_loop_lookup:
  "distinct (map mid ms) \<Longrightarrow> m \<in> set ms \<Longrightarrow>
   map_of (fst (fetch_loop api ms acc)) (mid m) =
     (case api m of Inr tr \<Rightarrow> Some tr | Inl e \<Rightarrow> map_of acc (mid m))"
proof (induction ms arbitrary: acc)
  case Nil
  then show ?case by simp
next
  case (Cons a ms)
  from Cons.prems(1) have d: "distinct (map mid ms)" and fresh: "mid a \<notin> mid ` set ms"
    by simp_all
  show ?case
  proof (cases "m = a")
    case True
    show ?thesis
      unfolding True fetch_loop_fst_Cons
      by (simp add: fetch_loop_lookup_other [OF fresh] update_conv' split: sum.splits)
  next
    case False
    with Cons.prems(2) have m: "m \<in> set ms" by simp
    with fresh have ne: "mid m \<noteq> mid a" by (metis imageI)
    show ?thesis
      unfolding fetch_loop_fst_Cons
      using ne by (simp add: Cons.IH [OF d m] update_conv' split: sum.splits)
  qed
qed

lemma fetch_loop_keys:
  "fst ` set (fst (fetch_loop api ms acc)) =
     fst ` set acc \<union> {mid m |m. m \<in> set ms \<and> (\<exists>tr. api m = Inr tr)}"
proof (induction ms arbitrary: acc)
  case Nil
  show ?case by simp
next
  case (Cons a ms)
  show ?case
  proof (cases "api a")
    case (Inl e)
    then show ?thesis
      unfolding fetch_loop_fst_Cons using Cons.IH [of acc] by auto
  next
    case (Inr tr)
    then show ?thesis
      unfolding fetch_loop_fst_Cons using Cons.IH [of "AList.update (mid a) tr acc"]
      by (auto simp: dom_update)
  qed
qed

lemma fetch_loop_distinct:
  "distinct (map fst acc) \<Longrightarrow> distinct (map fst (fst (fetch_loop api ms acc)))"
proof (induction ms arbitrary: acc)
  case Nil
  then show ?case by simp
next
  case (Cons a ms)
  show ?case
  proof (cases "api a")
    case (Inl e)
    then show ?thesis
      unfolding fetch_loop_fst_Cons using Cons.IH [OF Cons.prems] by simp
  next
    case (Inr tr)
    have "distinct (map fst (AList.update (mid a) tr acc))"
      using Cons.prems by (rule distinct_update)
    then show ?thesis
      unfolding fetch_loop_fst_Cons using Cons.IH [of "AList.update (mid a) tr acc"] Inr
      by simp
  qed
qed

lemma fetch_loop_requests:
  "filter (\<lambda>e. e \<noteq> ConsoleError) (snd (fetch_loop api ms acc))
     = map (\<lambda>m. TrajectoryRequest (Some m) 50) ms"
proof (induction ms arbitrary: acc)
  case Nil
  show ?case by simp
next
  case (Cons a ms)
  show ?case
    unfolding fetch_loop_snd_Cons by (simp add: Cons.IH split: sum.splits)
qed

lemma find_snoc:
  "find P (xs @ [a]) =
     (case find P xs of None \<Rightarrow> (if P a then Some a else None) | Some x \<Rightarrow> Some x)"
  by (induction xs) simp_all

lemma fetch_loop_lookup_last:
  "map_of (fst (fetch_loop api ms acc)) k =
     (case find (\<lambda>m. mid m = k \<and> \<not> isl (api m)) (rev ms) of
        None \<Rightarrow> map_of acc k
      | Some m \<Rightarrow> (case api m of Inr tr \<Rightarrow> Some tr | Inl e \<Rightarrow> None))"
proof (induction ms arbitrary: acc)
  case Nil
  show ?case by simp
next
  case (Cons a ms)
  show ?case
  proof (cases "api a")
    case (Inl e)
    then show ?thesis
      unfolding fetch_loop_fst_Cons
      by (simp add: Cons.IH find_snoc split: option.splits)
  next
    case (Inr tr)
    then show ?thesis
      unfolding fetch_loop_fst_Cons
      by (simp add: Cons.IH find_snoc update_conv' split: option.splits)
  qed
qed

lemma fetch_loop_logged:
  "length (filter (\<lambda>e. e = ConsoleError) (snd (fetch_loop api ms acc)))
     = length (filter (\<lambda>m. isl (api m)) ms)"
proof (induction ms arbitrary: acc)
  case Nil
  show ?case by simp
next
  case (Cons a ms)
  show ?case
    unfolding fetch_loop_snd_Cons by (simp add: Cons.IH split: sum.splits)
qed

text \<open>
  C8 (as the code has it). With a primary mission loaded, \<^verbatim>\<open>loadTrajectories\<close> does
  not fail: it sends one request per mission, in order, whatever the earlier ones
  answered, logs one error per request that throws, and stores a trajectory object that
  does not depend on the previous one. The keys of that object are the identifiers under
  which some request did not throw, each once, and a key holds the \<^verbatim>\<open>trajectory\<close>
  field of the last such response, which is undefined when the response has no such
  field. When the mission identifiers are pairwise distinct, a mission whose request did
  not throw has the entry of its response and a mission whose request threw has none.
\<close>

theorem loadTrajectories_keyed_by_id:
  assumes "primaryMission s = Some pm"
  shows "\<exists>trajData effs.
      loadTrajectories api s = (Inr (s\<lparr>trajectories := trajData\<rparr>), effs)
    \<and> loadTrajectories api (s\<lparr>trajectories := previous\<rparr>)
        = (Inr (s\<lparr>trajectories := trajData\<rparr>), effs)
    \<and> filter (\<lambda>e. e \<noteq> ConsoleError) effs
        = map (\<lambda>m. TrajectoryRequest (Some m) 50) (pm # otherMissions s)
    \<and> length (filter (\<lambda>e. e = ConsoleError) effs)
        = length (filter (\<lambda>m. isl (api m)) (pm # otherMissions s))
    \<and> fst ` set trajData
        = {mid m |m. m \<in> set (pm # otherMissions s) \<and> (\<exists>tr. api m = Inr tr)}
    \<and> distinct (map fst trajData)
    \<and> (\<forall>k. map_of trajData k =
          (case find (\<lambda>m. mid m = k \<and> \<not> isl (api m)) (rev (pm # otherMissions s)) of
             None \<Rightarrow> None
           | Some m \<Rightarrow> (case api m of Inr tr \<Rightarrow> Some tr | Inl e \<Rightarrow> None)))
    \<and> (distinct (map mid (pm # otherMissions s)) \<longrightarrow>
         (\<forall>m\<in>set (pm # otherMissions s).
            map_of trajData (mid m) = (case api m of Inr tr \<Rightarrow> Some tr | Inl e \<Rightarrow> None)))"
proof -
  let ?ms = "pm # otherMissions s"
  define trajData where "trajData = fst (fetch_loop api ?ms [])"
  define effs where "effs = snd (fetch_loop api ?ms [])"
  have fl: "fetch_loop api ?ms [] = (trajData, effs)"
    by (simp add: trajData_def effs_def)
  have a: "loadTrajectories api s = (Inr (s\<lparr>trajectories := trajData\<rparr>), effs)"
    using assms fl by (simp add: loadTrajectories_def)
  have b: "loadTrajectories api (s\<lparr>trajectories := previous\<rparr>)
      = (Inr (s\<lparr>trajectories := trajData\<rparr>), effs)"
    using assms fl by (simp add: loadTrajectories_def)
  have c: "filter (\<lambda>e. e \<noteq> ConsoleError) effs = map (\<lambda>m. TrajectoryRequest (Some m) 50) ?ms"
    unfolding effs_def by (rule fetch_loop_requests)
  have d: "length (filter (\<lambda>e. e = ConsoleError) effs) = length (filter (\<lambda>m. isl (api m)) ?ms)"
    unfolding effs_def by (rule fetch_loop_logged)
  have e: "fst ` set trajData = {mid m |m. m \<in> set ?ms \<and> (\<exists>tr. api m = Inr tr)}"
    unfolding trajData_def using fetch_loop_keys [of api ?ms "[]"] by simp
  have f: "distinct (map fst trajData)"
    unfolding trajData_def by (rule fetch_loop_distinct) simp
  have g: "\<forall>k. map_of trajData k =
      (case find (\<lambda>m. mid m = k \<and> \<not> isl (api m)) (rev ?ms) of
         None \<Rightarrow> None
       | Some m \<Rightarrow> (case api m of Inr tr \<Rightarrow> Some tr | Inl e \<Rightarrow> None))"
    unfolding trajData_def fetch_loop_lookup_last map_of.simps(1) by (intro allI refl)
  have h: "distinct (map mid ?ms) \<longrightarrow>
      (\<forall>m\<in>set ?ms. map_of trajData (mid m) = (case api m of Inr tr \<Rightarrow> Some tr | Inl e \<Rightarrow> None))"
  proof (intro impI ballI)
    fix m assume dis: "distinct (map mid ?ms)" and m: "m \<in> set ?ms"
    show "map_of trajData (mid m) = (case api m of Inr tr \<Rightarrow> Some tr | Inl e \<Rightarrow> None)"
      unfolding trajData_def using fetch_loop_lookup [OF dis m, of api "[]"]
      by (simp split: sum.splits)
  qed
  from a b c d e f g h show ?thesis by blast
qed

theorem loadTrajectories_keyed_by_id_witness:
  "primaryMission (ex_playing 0 5 0) = Some (ex_mission ''primary'' 0 5)
   \<and> distinct (map mid (ex_mission ''primary'' 0 5 # otherMissions (ex_playing 0 5 0)))
   \<and> trajectories (ex_playing 0 5 0)
       = [(''primary'', Some ex_trajectory), (''drone_a'', Some ex_trajectory),
          (''drone_b'', Some ex_trajectory)]
   \<and> loadTrajectories ex_flaky_api (ex_playing 0 5 0)
       = (Inr ((ex_playing 0 5 0)
                 \<lparr>trajectories :=
                    [(''primary'', Some ex_trajectory), (''drone_b'', Some ex_trajectory)]\<rparr>),
          [TrajectoryRequest (Some (ex_mission ''primary'' 0 5)) 50,
           TrajectoryRequest (Some (ex_mission ''drone_a'' 0 5)) 50, ConsoleError,
           TrajectoryRequest (Some (ex_mission ''drone_b'' 0 5)) 50])"
proof -
  have pm: "primaryMission (ex_playing 0 5 0) = Some (ex_mission ''primary'' 0 5)"
    by (simp add: ex_defs)
  have d: "distinct (map mid (ex_mission ''primary'' 0 5 # otherMissions (ex_playing 0 5 0)))"
    by (simp add: ex_defs)
  show ?thesis
    using loadTrajectories_keyed_by_id [OF pm, of ex_flaky_api "[]"] pm d
    by (simp add: ex_defs ex_flaky_api_def)
qed

text \<open>
  C8 as stated fails. When two missions share an identifier and only the request of the
  second fails, the object has an entry under the identifier of the mission whose
  request failed, and one entry for the two missions. When a response has no
  \<^verbatim>\<open>trajectory\<close> field, nothing is logged and the key is kept with an undefined
  value.
\<close>

theorem loadTrajectories_counterexample:
  "primaryMission ex_shared_id_state = Some (ex_mission ''primary'' 0 5)
   \<and> otherMissions ex_shared_id_state = [ex_mission ''drone_a'' 0 5, ex_mission ''drone_a'' 0 9]
   \<and> ex_shared_id_api (ex_mission ''drone_a'' 0 9) = Inl FetchFailed
   \<and> loadTrajectories ex_shared_id_api ex_shared_id_state
       = (Inr (ex_shared_id_state
                 \<lparr>trajectories :=
                    [(''primary'', Some ex_trajectory), (''drone_a'', Some ex_trajectory)]\<rparr>),
          [TrajectoryRequest (Some (ex_mission ''primary'' 0 5)) 50,
           TrajectoryRequest (Some (ex_mission ''drone_a'' 0 5)) 50,
           TrajectoryRequest (Some (ex_mission ''drone_a'' 0 9)) 50, ConsoleError])
   \<and> map_of [(''primary'', Some ex_trajectory), (''drone_a'', Some ex_trajectory)]
        (mid (ex_mission ''drone_a'' 0 9))
       = Some (Some ex_trajectory)
   \<and> ex_no_field_api (ex_mission ''drone_a'' 0 5) = Inr None
   \<and> loadTrajectories ex_no_field_api (ex_playing 0 5 0)
       = (Inr ((ex_playing 0 5 0)
                 \<lparr>trajectories :=
                    [(''primary'', Some ex_trajectory), (''drone_a'', None),
                     (''drone_b'', Some ex_trajectory)]\<rparr>),
          [TrajectoryRequest (Some (ex_mission ''primary'' 0 5)) 50,
           TrajectoryRequest (Some (ex_mission ''drone_a'' 0 5)) 50,
           TrajectoryRequest (Some (ex_mission ''drone_b'' 0 5)) 50])"
  by (simp add: ex_defs ex_shared_id_state_def ex_shared_id_api_def ex_no_field_api_def)


section \<open>Scene composition\<close>

text \<open>
  C9. \<^verbatim>\<open>render3DView\<close> is a function of the time, the missions, the trajectory object
  and the verification result: two states that agree on these give the same primitives,
  whatever their other cells hold. The result carries no state, so nothing is mutated.
\<close>

theorem render3DView_depends_on_four_inputs:
  assumes "currentTime s = currentTime s'"
    and "primaryMission s = primaryMission s'"
    and "otherMissions s = otherMissions s'"
    and "trajectories s = trajectories s'"
    and "verificationResult s = verificationResult s'"
  shows "render3DView s = render3DView s'"
proof -
  have drone: "renderDrone s = renderDrone s'"
    unfolding renderDrone_def assms(1,4) by (rule refl)
  show ?thesis
    unfolding render3DView_def drone assms(2,3,5) by (rule refl)
qed


theorem render3DView_depends_on_four_inputs_witness:
  "currentTime (ex_playing 0 5 2)
     = currentTime ((ex_playing 0 5 2)\<lparr>selectedScenario := ''clear'', isLoading := True,
         useML := True, isPlaying := False, view3D := False\<rparr>)
   \<and> primaryMission (ex_playing 0 5 2)
     = primaryMission ((ex_playing 0 5 2)\<lparr>selectedScenario := ''clear'', isLoading := True,
         useML := True, isPlaying := False, view3D := False\<rparr>)
   \<and> otherMissions (ex_playing 0 5 2)
     = otherMissions ((ex_playing 0 5 2)\<lparr>selectedScenario := ''clear'', isLoading := True,
         useML := True, isPlaying := False, view3D := False\<rparr>)
   \<and> trajectories (ex_playing 0 5 2)
     = trajectories ((ex_playing 0 5 2)\<lparr>selectedScenario := ''clear'', isLoading := True,
         useML := True, isPlaying := False, view3D := False\<rparr>)
   \<and> verificationResult (ex_playing 0 5 2)
     = verificationResult ((ex_playing 0 5 2)\<lparr>selectedScenario := ''clear'', isLoading := True,
         useML := True, isPlaying := False, view3D := False\<rparr>)
   \<and> isPlaying (ex_playing 0 5 2)
   \<and> render3DView (ex_playing 0 5 2)
     = render3DView ((ex_playing 0 5 2)\<lparr>selectedScenario := ''clear'', isLoading := True,
         useML := True, isPlaying := False, view3D := False\<rparr>)"
proof -
  have p: "isPlaying (ex_playing 0 5 2)" by (simp add: ex_defs)
  have "render3DView (ex_playing 0 5 2)
     = render3DView ((ex_playing 0 5 2)\<lparr>selectedScenario := ''clear'', isLoading := True,
         useML := True, isPlaying := False, view3D := False\<rparr>)"
    by (rule render3DView_depends_on_four_inputs) simp_all
  with p show ?thesis by simp
qed

end
